theory Spec2Isabelle
  imports Complex_Main "HOL-Library.Word" "HOL-Library.Monad_Syntax"
begin

section \<open>The PID controller of PID\_ESP32/PID.c\<close>

text \<open>
  The source is a C port of the Arduino PID library for the ESP32. Conventions of the
  embedding:
  \<^item> \<open>unsigned long\<close> and \<open>int\<close> are 32 bits wide on the ESP32: both are \<open>32 word\<close>.
    Subtraction of timestamps wraps around as in C; an \<open>int\<close> is read through \<open>sint\<close>,
    and the cast \<open>(unsigned long)\<close> of an \<open>int\<close> keeps its bits.
  \<^item> \<open>double\<close> is idealised as \<open>real\<close> in the first transcription of the functions:
    no rounding, no overflow, no infinity and no NaN. The one operation of the source
    that leaves this idealisation is a division by zero (IEEE gives an infinity or a NaN
    there); it is the partial operation \<open>ddiv\<close>, and a function that runs into it
    returns \<open>None\<close>. The functions that do arithmetic are transcribed a second time
    over an arithmetic that is a parameter, with IEEE 754 binary64 as one instance; the
    properties that depend on how doubles round or overflow are stated for those.
  \<^item> The three \<open>double*\<close> members of the structure point to cells owned by the caller.
    They are addresses into an explicit store \<open>mem\<close>; nothing forces two of them to
    differ. The structure itself is not part of that store.
  \<^item> \<open>millis()\<close> reads the scheduler's tick count. Its result at the moment of the call
    is the argument \<open>now\<close> of the two functions that call it.
\<close>

type_synonym c_int = "32 word"
type_synonym c_ulong = "32 word"
type_synonym addr = nat
type_synonym mem = "addr \<Rightarrow> real"

subsection \<open>Declarations of PID\_v1.h\<close>

text \<open>
  Modelled from the spec: the header PID\_v1.h, which declares the macros \<open>AUTOMATIC\<close>,
  \<open>MANUAL\<close>, \<open>DIRECT\<close>, \<open>REVERSE\<close>, \<open>P_ON_M\<close>, \<open>P_ON_E\<close> and the structure
  \<open>PID_t\<close>, is missing from the sources. The spec names the two modes, the two
  directions and the two proportional modes; the numbers are those of version 1.2.1 of the
  Arduino library that PID.c adapts. No theorem below depends on the numbers, only on the
  names.
\<close>

definition AUTOMATIC :: c_int where "AUTOMATIC = 1"
definition MANUAL :: c_int where "MANUAL = 0"
definition DIRECT :: c_int where "DIRECT = 0"
definition REVERSE :: c_int where "REVERSE = 1"
definition P_ON_M :: c_int where "P_ON_M = 0"
definition P_ON_E :: c_int where "P_ON_E = 1"

text \<open>
  Modelled from the spec: the structure \<open>PID_t\<close> of the missing header. Its members are
  those PID.c reads and writes through \<open>p_PID->\<close>, with the types PID.c uses them at
  and the meaning the spec's data model gives them.
\<close>

record PID_t =
  dispKp :: real
  dispKi :: real
  dispKd :: real
  kp :: real
  ki :: real
  kd :: real
  controllerDirection :: c_int
  pOn :: c_int
  myInput :: addr
  myOutput :: addr
  mySetpoint :: addr
  lastTime :: c_ulong
  outputSum :: real
  lastInput :: real
  SampleTime :: c_ulong
  outMin :: real
  outMax :: real
  inAuto :: bool
  pOnE :: bool

subsection \<open>Arithmetic of the idealised doubles\<close>

text \<open>
  Division of doubles. A zero divisor gives \<open>None\<close>: the C quotient is then an infinity
  or a NaN, which \<open>real\<close> does not have.
\<close>

definition ddiv :: "real \<Rightarrow> real \<Rightarrow> real option" where
  "ddiv x y = (if y = 0 then None else Some (x / y))"

text \<open>
  The saturation that the source writes out four times as
  \<^verbatim>\<open>if(x > max) x = max; else if(x < min) x = min;\<close>
  The functions below keep the two comparisons in place; \<open>clamp\<close> names their result in
  the theorems.
\<close>

definition clamp :: "real \<Rightarrow> real \<Rightarrow> real \<Rightarrow> real" where
  "clamp x lo hi = (if x > hi then hi else if x < lo then lo else x)"

subsection \<open>The functions of PID.c\<close>

text \<open>\<open>PID_Compute\<close> (lines 77 to 114). The result is the returned flag, the structure
  and the store after the call.\<close>

definition PID_Compute :: "c_ulong \<Rightarrow> PID_t \<Rightarrow> mem \<Rightarrow> bool \<times> PID_t \<times> mem" where
  "PID_Compute now p m =
     (if \<not> inAuto p then (False, p, m)
      else
        let timeChange = now - lastTime p in
        if timeChange \<ge> SampleTime p then
          let input = m (myInput p);
              error = m (mySetpoint p) - input;
              dInput = input - lastInput p;
              p1 = p\<lparr>outputSum := outputSum p + ki p * error\<rparr>;
              p2 = (if \<not> pOnE p1 then p1\<lparr>outputSum := outputSum p1 - kp p1 * dInput\<rparr>
                    else p1);
              p3 = (if outputSum p2 > outMax p2 then p2\<lparr>outputSum := outMax p2\<rparr>
                    else if outputSum p2 < outMin p2 then p2\<lparr>outputSum := outMin p2\<rparr>
                    else p2);
              output0 = (if pOnE p3 then kp p3 * error else 0);
              output1 = output0 + (outputSum p3 - kd p3 * dInput);
              output2 = (if output1 > outMax p3 then outMax p3
                         else if output1 < outMin p3 then outMin p3
                         else output1);
              m1 = m(myOutput p3 := output2);
              p4 = p3\<lparr>lastInput := input\<rparr>;
              p5 = p4\<lparr>lastTime := now\<rparr>
          in (True, p5, m1)
        else (False, p, m))"

text \<open>\<open>PID_SetTunings\<close> (lines 121 to 140).\<close>

definition PID_SetTunings :: "PID_t \<Rightarrow> real \<Rightarrow> real \<Rightarrow> real \<Rightarrow> c_int \<Rightarrow> PID_t option" where
  "PID_SetTunings p Kp Ki Kd POn =
     (if Kp < 0 \<or> Ki < 0 \<or> Kd < 0 then Some p
      else
        let p1 = p\<lparr>pOn := POn\<rparr>;
            p2 = p1\<lparr>pOnE := (POn = P_ON_E)\<rparr>;
            p3 = p2\<lparr>dispKp := Kp, dispKi := Ki, dispKd := Kd\<rparr>;
            SampleTimeInSec = real (unat (SampleTime p3)) / 1000
        in do {
          q \<leftarrow> ddiv Kd SampleTimeInSec;
          let p4 = p3\<lparr>kp := Kp, ki := Ki * SampleTimeInSec, kd := q\<rparr>;
          Some (if controllerDirection p4 = REVERSE
                then p4\<lparr>kp := 0 - kp p4, ki := 0 - ki p4, kd := 0 - kd p4\<rparr>
                else p4)
        })"

text \<open>\<open>PID_SetTunings_simple\<close> (lines 145 to 147).\<close>

definition PID_SetTunings_simple :: "PID_t \<Rightarrow> real \<Rightarrow> real \<Rightarrow> real \<Rightarrow> PID_t option" where
  "PID_SetTunings_simple p Kp Ki Kd = PID_SetTunings p Kp Ki Kd (pOn p)"

text \<open>\<open>PID_SetSampleTime\<close> (lines 152 to 161).\<close>

definition PID_SetSampleTime :: "PID_t \<Rightarrow> c_int \<Rightarrow> PID_t option" where
  "PID_SetSampleTime p NewSampleTime =
     (if sint NewSampleTime > 0 then
        do {
          ratio \<leftarrow> ddiv (real_of_int (sint NewSampleTime)) (real (unat (SampleTime p)));
          q \<leftarrow> ddiv (kd p) ratio;
          Some (p\<lparr>ki := ki p * ratio, kd := q, SampleTime := NewSampleTime\<rparr>)
        }
      else Some p)"

text \<open>\<open>PID_SetOutputLimits\<close> (lines 171 to 184). The parameters \<open>Min\<close> and \<open>Max\<close> of the
  source carry a prime here, the plain names being constants of HOL.\<close>

definition PID_SetOutputLimits :: "PID_t \<Rightarrow> mem \<Rightarrow> real \<Rightarrow> real \<Rightarrow> PID_t \<times> mem" where
  "PID_SetOutputLimits p m Min' Max' =
     (if Min' \<ge> Max' then (p, m)
      else
        let p1 = p\<lparr>outMin := Min', outMax := Max'\<rparr> in
        if inAuto p1 then
          let m1 = (if m (myOutput p1) > outMax p1 then m(myOutput p1 := outMax p1)
                    else if m (myOutput p1) < outMin p1 then m(myOutput p1 := outMin p1)
                    else m);
              p2 = (if outputSum p1 > outMax p1 then p1\<lparr>outputSum := outMax p1\<rparr>
                    else if outputSum p1 < outMin p1 then p1\<lparr>outputSum := outMin p1\<rparr>
                    else p1)
          in (p2, m1)
        else (p1, m))"

text \<open>\<open>PID_Initialize\<close> (lines 205 to 210). It reads two cells and writes none.\<close>

definition PID_Initialize :: "PID_t \<Rightarrow> mem \<Rightarrow> PID_t" where
  "PID_Initialize p m =
     (let p1 = p\<lparr>outputSum := m (myOutput p)\<rparr>;
          p2 = p1\<lparr>lastInput := m (myInput p1)\<rparr>
      in if outputSum p2 > outMax p2 then p2\<lparr>outputSum := outMax p2\<rparr>
         else if outputSum p2 < outMin p2 then p2\<lparr>outputSum := outMin p2\<rparr>
         else p2)"

text \<open>\<open>PID_SetMode\<close> (lines 191 to 199).\<close>

definition PID_SetMode :: "PID_t \<Rightarrow> mem \<Rightarrow> c_int \<Rightarrow> PID_t" where
  "PID_SetMode p m Mode =
     (let newAuto = (Mode = AUTOMATIC);
          p1 = (if newAuto \<and> \<not> inAuto p then PID_Initialize p m else p)
      in p1\<lparr>inAuto := newAuto\<rparr>)"

text \<open>\<open>PID_SetControllerDirection\<close> (lines 218 to 226).\<close>

definition PID_SetControllerDirection :: "PID_t \<Rightarrow> c_int \<Rightarrow> PID_t" where
  "PID_SetControllerDirection p Direction =
     (let p1 = (if inAuto p \<and> Direction \<noteq> controllerDirection p
                then p\<lparr>kp := 0 - kp p, ki := 0 - ki p, kd := 0 - kd p\<rparr>
                else p)
      in p1\<lparr>controllerDirection := Direction\<rparr>)"

text \<open>The status functions (lines 233 to 251).\<close>

definition PID_GetKp :: "PID_t \<Rightarrow> real" where
  "PID_GetKp p = dispKp p"

definition PID_GetKi :: "PID_t \<Rightarrow> real" where
  "PID_GetKi p = dispKi p"

definition PID_GetKd :: "PID_t \<Rightarrow> real" where
  "PID_GetKd p = dispKd p"

definition PID_GetMode :: "PID_t \<Rightarrow> c_int" where
  "PID_GetMode p = (if inAuto p then AUTOMATIC else MANUAL)"

definition PID_GetDirection :: "PID_t \<Rightarrow> c_int" where
  "PID_GetDirection p = controllerDirection p"

text \<open>
  \<open>PID_constructor\<close> (lines 41 to 57). The argument \<open>p\<close> is the structure as the caller
  hands it over, with whatever its members held before; \<open>now\<close> is what \<open>millis()\<close>
  returns in the last statement.
\<close>

definition PID_constructor ::
  "c_ulong \<Rightarrow> PID_t \<Rightarrow> mem \<Rightarrow> addr \<Rightarrow> addr \<Rightarrow> addr \<Rightarrow> real \<Rightarrow> real \<Rightarrow> real \<Rightarrow> c_int \<Rightarrow> c_int
     \<Rightarrow> (PID_t \<times> mem) option" where
  "PID_constructor now p m Input Output Setpoint Kp Ki Kd POn ControllerDirection =
     (let p1 = p\<lparr>myOutput := Output, myInput := Input, mySetpoint := Setpoint,
                 inAuto := False\<rparr>;
          (p2, m2) = PID_SetOutputLimits p1 m 0 255;
          p3 = p2\<lparr>SampleTime := 100\<rparr>;
          p4 = PID_SetControllerDirection p3 ControllerDirection
      in do {
        p5 \<leftarrow> PID_SetTunings p4 Kp Ki Kd POn;
        Some (p5\<lparr>lastTime := now - SampleTime p5\<rparr>, m2)
      })"

subsection \<open>The arithmetic of the code's doubles\<close>

text \<open>
  The functions above compute with exact real numbers. The code computes with IEEE 754
  binary64 numbers: every sum, difference, product and quotient is rounded, and it can
  overflow to an infinity or give a NaN. The functions of PID.c that do arithmetic are
  therefore given a second time below, over an arithmetic \<open>A\<close> that is a parameter. A
  finite double is the real number it stands for; an operation of \<open>A\<close> returns \<open>None\<close>
  when its result is not a finite double (an overflow, a division by zero), and a
  function that meets such an operation returns \<open>None\<close>: what the code does with
  infinities and NaNs is outside this development. Comparisons of finite doubles are
  those of the reals, and \<open>0 - x\<close> is exact.

  \<open>exact\<close> is the arithmetic of the functions above. \<open>binary64\<close> is the arithmetic of
  the code: each operation is the exact one followed by \<open>round64\<close>, rounding to nearest
  with ties to even, with gradual underflow.
\<close>

record arith =
  fadd :: "real \<Rightarrow> real \<Rightarrow> real option"
  fsub :: "real \<Rightarrow> real \<Rightarrow> real option"
  fmul :: "real \<Rightarrow> real \<Rightarrow> real option"
  fdiv :: "real \<Rightarrow> real \<Rightarrow> real option"

definition exact :: arith where
  "exact = \<lparr>fadd = (\<lambda>x y. Some (x + y)), fsub = (\<lambda>x y. Some (x - y)),
             fmul = (\<lambda>x y. Some (x * y)), fdiv = ddiv\<rparr>"

text \<open>
  \<open>expo n x\<close> is the binary exponent of \<open>x > 0\<close>, the integer \<open>e\<close> with
  \<open>2 ^ e \<le> x < 2 ^ (e + 1)\<close>, found in at most \<open>n\<close> doublings or halvings.
\<close>

fun expo :: "nat \<Rightarrow> real \<Rightarrow> int" where
  "expo 0 x = 0"
| "expo (Suc n) x =
     (if 2 \<le> x then expo n (x / 2) + 1 else if x < 1 then expo n (2 * x) - 1 else 0)"

text \<open>The integer nearest to \<open>q\<close>, the even one of the two when \<open>q\<close> lies halfway.\<close>

definition half_even :: "real \<Rightarrow> int" where
  "half_even q =
     (let n = \<lfloor>q\<rfloor>; r = q - of_int n
      in if r < 1 / 2 then n else if 1 / 2 < r then n + 1 else if even n then n else n + 1)"

text \<open>The unit in the last place of a double with exponent \<open>e\<close>: \<open>2 ^ (e - 52)\<close>.\<close>

definition ulp_at :: "int \<Rightarrow> real" where
  "ulp_at e = (if 52 \<le> e then 2 ^ nat (e - 52) else 1 / 2 ^ nat (52 - e))"

text \<open>
  Rounding to binary64. A number of magnitude \<open>2 ^ 1024 - 2 ^ 970\<close> or more (the
  largest double plus half a unit in its last place) overflows. Below the smallest normal
  number \<open>2 ^ (-1022)\<close> the exponent stays at \<open>-1022\<close>, which gives the subnormal
  numbers. The sign of a zero is not kept: it shows only in a division by zero, which is
  \<open>None\<close> here.
\<close>

definition round64 :: "real \<Rightarrow> real option" where
  "round64 x =
     (if x = 0 then Some 0
      else if 2 ^ 1024 - 2 ^ 970 \<le> \<bar>x\<bar> then None
      else let e = max (expo 1100 \<bar>x\<bar>) (- 1022); u = ulp_at e
           in Some (of_int (half_even (x / u)) * u))"

definition binary64 :: arith where
  "binary64 = \<lparr>fadd = (\<lambda>x y. round64 (x + y)), fsub = (\<lambda>x y. round64 (x - y)),
                fmul = (\<lambda>x y. round64 (x * y)),
                fdiv = (\<lambda>x y. if y = 0 then None else round64 (x / y))\<rparr>"

subsection \<open>The functions of PID.c that do arithmetic, over an arithmetic\<close>

text \<open>
  \<open>PID_Compute\<close> (lines 77 to 114), each operation on doubles taken from \<open>A\<close>, in the
  order in which the source evaluates them.
\<close>

definition PID_Compute_in ::
  "arith \<Rightarrow> c_ulong \<Rightarrow> PID_t \<Rightarrow> mem \<Rightarrow> (bool \<times> PID_t \<times> mem) option" where
  "PID_Compute_in A now p m =
     (if \<not> inAuto p then Some (False, p, m)
      else
        let timeChange = now - lastTime p in
        if timeChange \<ge> SampleTime p then
          do {
            let input = m (myInput p);
            error \<leftarrow> fsub A (m (mySetpoint p)) input;
            dInput \<leftarrow> fsub A input (lastInput p);
            t1 \<leftarrow> fmul A (ki p) error;
            s1 \<leftarrow> fadd A (outputSum p) t1;
            let p1 = p\<lparr>outputSum := s1\<rparr>;
            p2 \<leftarrow> (if \<not> pOnE p1
                   then do {
                     t2 \<leftarrow> fmul A (kp p1) dInput;
                     s2 \<leftarrow> fsub A (outputSum p1) t2;
                     Some (p1\<lparr>outputSum := s2\<rparr>)
                   }
                   else Some p1);
            let p3 = (if outputSum p2 > outMax p2 then p2\<lparr>outputSum := outMax p2\<rparr>
                      else if outputSum p2 < outMin p2 then p2\<lparr>outputSum := outMin p2\<rparr>
                      else p2);
            output0 \<leftarrow> (if pOnE p3 then fmul A (kp p3) error else Some 0);
            t3 \<leftarrow> fmul A (kd p3) dInput;
            t4 \<leftarrow> fsub A (outputSum p3) t3;
            output1 \<leftarrow> fadd A output0 t4;
            let output2 = (if output1 > outMax p3 then outMax p3
                           else if output1 < outMin p3 then outMin p3
                           else output1);
            let m1 = m(myOutput p3 := output2);
            let p4 = p3\<lparr>lastInput := input\<rparr>;
            let p5 = p4\<lparr>lastTime := now\<rparr>;
            Some (True, p5, m1)
          }
        else Some (False, p, m))"

text \<open>\<open>PID_SetTunings\<close> (lines 121 to 140) over \<open>A\<close>.\<close>

definition PID_SetTunings_in ::
  "arith \<Rightarrow> PID_t \<Rightarrow> real \<Rightarrow> real \<Rightarrow> real \<Rightarrow> c_int \<Rightarrow> PID_t option" where
  "PID_SetTunings_in A p Kp Ki Kd POn =
     (if Kp < 0 \<or> Ki < 0 \<or> Kd < 0 then Some p
      else
        let p1 = p\<lparr>pOn := POn\<rparr>;
            p2 = p1\<lparr>pOnE := (POn = P_ON_E)\<rparr>;
            p3 = p2\<lparr>dispKp := Kp, dispKi := Ki, dispKd := Kd\<rparr>
        in do {
          SampleTimeInSec \<leftarrow> fdiv A (real (unat (SampleTime p3))) 1000;
          i \<leftarrow> fmul A Ki SampleTimeInSec;
          d \<leftarrow> fdiv A Kd SampleTimeInSec;
          let p4 = p3\<lparr>kp := Kp, ki := i, kd := d\<rparr>;
          Some (if controllerDirection p4 = REVERSE
                then p4\<lparr>kp := 0 - kp p4, ki := 0 - ki p4, kd := 0 - kd p4\<rparr>
                else p4)
        })"

text \<open>\<open>PID_SetTunings_simple\<close> (lines 145 to 147) over \<open>A\<close>.\<close>

definition PID_SetTunings_simple_in ::
  "arith \<Rightarrow> PID_t \<Rightarrow> real \<Rightarrow> real \<Rightarrow> real \<Rightarrow> PID_t option" where
  "PID_SetTunings_simple_in A p Kp Ki Kd = PID_SetTunings_in A p Kp Ki Kd (pOn p)"

text \<open>\<open>PID_SetSampleTime\<close> (lines 152 to 161) over \<open>A\<close>.\<close>

definition PID_SetSampleTime_in :: "arith \<Rightarrow> PID_t \<Rightarrow> c_int \<Rightarrow> PID_t option" where
  "PID_SetSampleTime_in A p NewSampleTime =
     (if sint NewSampleTime > 0 then
        do {
          ratio \<leftarrow> fdiv A (real_of_int (sint NewSampleTime)) (real (unat (SampleTime p)));
          i \<leftarrow> fmul A (ki p) ratio;
          d \<leftarrow> fdiv A (kd p) ratio;
          Some (p\<lparr>ki := i, kd := d, SampleTime := NewSampleTime\<rparr>)
        }
      else Some p)"

text \<open>\<open>PID_constructor\<close> (lines 41 to 57) over \<open>A\<close>.\<close>

definition PID_constructor_in ::
  "arith \<Rightarrow> c_ulong \<Rightarrow> PID_t \<Rightarrow> mem \<Rightarrow> addr \<Rightarrow> addr \<Rightarrow> addr \<Rightarrow> real \<Rightarrow> real \<Rightarrow> real
     \<Rightarrow> c_int \<Rightarrow> c_int \<Rightarrow> (PID_t \<times> mem) option" where
  "PID_constructor_in A now p m Input Output Setpoint Kp Ki Kd POn ControllerDirection =
     (let p1 = p\<lparr>myOutput := Output, myInput := Input, mySetpoint := Setpoint,
                 inAuto := False\<rparr>;
          (p2, m2) = PID_SetOutputLimits p1 m 0 255;
          p3 = p2\<lparr>SampleTime := 100\<rparr>;
          p4 = PID_SetControllerDirection p3 ControllerDirection
      in do {
        p5 \<leftarrow> PID_SetTunings_in A p4 Kp Ki Kd POn;
        Some (p5\<lparr>lastTime := now - SampleTime p5\<rparr>, m2)
      })"

subsection \<open>The caller\<close>

text \<open>
  The control loop that owns the controller: it calls the functions of PID.c in any order
  and writes the cells between the calls (the sensor writes the input, the operator the
  setpoint, and in manual mode whoever drives the actuator writes the output). One call
  is an \<open>api_call\<close>; \<open>api_step_in A\<close> performs it on the pair of structure and store
  with the arithmetic \<open>A\<close>, and \<open>run_in A\<close> performs a list of them from left to right.
  \<open>run\<close> is the run in exact arithmetic. The status functions change nothing and are
  left out.
\<close>

datatype api_call =
    Compute c_ulong
  | SetTunings real real real c_int
  | SetTunings_simple real real real
  | SetSampleTime c_int
  | SetOutputLimits real real
  | SetMode c_int
  | Initialize
  | SetControllerDirection c_int
  | Caller_write addr real

fun api_step_in :: "arith \<Rightarrow> PID_t \<times> mem \<Rightarrow> api_call \<Rightarrow> (PID_t \<times> mem) option" where
  "api_step_in A (p, m) (Compute now) = map_option snd (PID_Compute_in A now p m)"
| "api_step_in A (p, m) (SetTunings Kp Ki Kd POn) =
     map_option (\<lambda>p'. (p', m)) (PID_SetTunings_in A p Kp Ki Kd POn)"
| "api_step_in A (p, m) (SetTunings_simple Kp Ki Kd) =
     map_option (\<lambda>p'. (p', m)) (PID_SetTunings_simple_in A p Kp Ki Kd)"
| "api_step_in A (p, m) (SetSampleTime NewSampleTime) =
     map_option (\<lambda>p'. (p', m)) (PID_SetSampleTime_in A p NewSampleTime)"
| "api_step_in A (p, m) (SetOutputLimits Min' Max') = Some (PID_SetOutputLimits p m Min' Max')"
| "api_step_in A (p, m) (SetMode Mode) = Some (PID_SetMode p m Mode, m)"
| "api_step_in A (p, m) Initialize = Some (PID_Initialize p m, m)"
| "api_step_in A (p, m) (SetControllerDirection Direction) =
     Some (PID_SetControllerDirection p Direction, m)"
| "api_step_in A (p, m) (Caller_write a v) = Some (p, m(a := v))"

fun run_in :: "arith \<Rightarrow> PID_t \<times> mem \<Rightarrow> api_call list \<Rightarrow> (PID_t \<times> mem) option" where
  "run_in A s [] = Some s"
| "run_in A s (c # cs) = (case api_step_in A s c of None \<Rightarrow> None | Some s' \<Rightarrow> run_in A s' cs)"

abbreviation run :: "PID_t \<times> mem \<Rightarrow> api_call list \<Rightarrow> (PID_t \<times> mem) option" where
  "run \<equiv> run_in exact"

text \<open>
  \<open>within_limits p x\<close>: the value \<open>x\<close> lies in the closed interval of the output
  limits of \<open>p\<close>. \<open>limits_inv\<close> is the invariant of the structure that every call
  keeps.
\<close>

definition within_limits :: "PID_t \<Rightarrow> real \<Rightarrow> bool" where
  "within_limits p x \<longleftrightarrow> outMin p \<le> x \<and> x \<le> outMax p"

definition limits_inv :: "PID_t \<Rightarrow> bool" where
  "limits_inv p \<longleftrightarrow>
     SampleTime p \<noteq> 0 \<and> outMin p < outMax p \<and> (inAuto p \<longrightarrow> within_limits p (outputSum p))"

subsection \<open>A concrete controller\<close>

text \<open>
  The scenario of the spec: input, output and setpoint live in cells 0, 1 and 2, the
  setpoint is 10, the gains are \<open>Kp = 1\<close>, \<open>Ki = 0\<close>, \<open>Kd = 0\<close>, the direction is
  \<open>DIRECT\<close>. \<open>pid_raw\<close> is a zeroed structure before construction, \<open>pid_manual\<close> the
  structure the constructor makes of it at time 100, \<open>pid_auto\<close> the same controller
  switched to automatic mode. \<open>manual_mem\<close> is a store in which the output cell
  holds 100, as after manual operation.
\<close>

definition scenario_mem :: mem where
  "scenario_mem = (\<lambda>_. 0)(2 := 10)"

definition pid_raw :: PID_t where
  "pid_raw = \<lparr>dispKp = 0, dispKi = 0, dispKd = 0, kp = 0, ki = 0, kd = 0,
     controllerDirection = 0, pOn = 0, myInput = 0, myOutput = 0, mySetpoint = 0,
     lastTime = 0, outputSum = 0, lastInput = 0, SampleTime = 0, outMin = 0, outMax = 0,
     inAuto = False, pOnE = False\<rparr>"

definition pid_manual :: PID_t where
  "pid_manual = \<lparr>dispKp = 1, dispKi = 0, dispKd = 0, kp = 1, ki = 0, kd = 0,
     controllerDirection = DIRECT, pOn = P_ON_E, myInput = 0, myOutput = 1, mySetpoint = 2,
     lastTime = 0, outputSum = 0, lastInput = 0, SampleTime = 100, outMin = 0, outMax = 255,
     inAuto = False, pOnE = True\<rparr>"

definition pid_auto :: PID_t where
  "pid_auto = pid_manual\<lparr>inAuto := True\<rparr>"

definition manual_mem :: mem where
  "manual_mem = (\<lambda>_. 0)(1 := 100, 2 := 10)"

section \<open>Helper facts\<close>

lemma clamp_max_min: "lo \<le> hi \<Longrightarrow> clamp x lo hi = max lo (min hi x)"
  by (simp add: clamp_def max_def min_def)

lemma clamp_bounds: "lo \<le> hi \<Longrightarrow> lo \<le> clamp x lo hi \<and> clamp x lo hi \<le> hi"
  by (simp add: clamp_def)


lemma real_sint_pos:
  fixes N :: "32 word"
  shows "0 < sint N \<Longrightarrow> 0 < real_of_int (sint N)"
  by (simp only: of_int_0_less_iff)



text \<open>The constructor makes \<open>pid_manual\<close> of the zeroed structure and leaves the store alone.\<close>

lemma PID_constructor_scenario:
  "PID_constructor 100 pid_raw scenario_mem 0 1 2 1 0 0 P_ON_E DIRECT
     = Some (pid_manual, scenario_mem)"
  by (simp add: PID_constructor_def PID_SetOutputLimits_def PID_SetControllerDirection_def
      PID_SetTunings_def ddiv_def Let_def pid_raw_def pid_manual_def
      DIRECT_def REVERSE_def P_ON_E_def)

text \<open>The same from the store with the output cell at 100.\<close>

lemma PID_constructor_manual_mem:
  "PID_constructor 100 pid_raw manual_mem 0 1 2 1 0 0 P_ON_E DIRECT
     = Some (pid_manual, manual_mem)"
  by (simp add: PID_constructor_def PID_SetOutputLimits_def PID_SetControllerDirection_def
      PID_SetTunings_def ddiv_def Let_def pid_raw_def pid_manual_def
      DIRECT_def REVERSE_def P_ON_E_def)

subsection \<open>The two transcriptions agree in exact arithmetic\<close>

text \<open>
  The saturation as \<open>clamp\<close>, the two exits of \<open>PID_Compute_in\<close>, and the accepted
  branch with the bookkeeping of the structure unfolded.
\<close>

lemma saturate_outputSum:
  "(if outputSum q > outMax q then q\<lparr>outputSum := outMax q\<rparr>
    else if outputSum q < outMin q then q\<lparr>outputSum := outMin q\<rparr> else q) =
   q\<lparr>outputSum := clamp (outputSum q) (outMin q) (outMax q)\<rparr>"
  by (simp add: clamp_def)

lemma saturate_value: "(if x > hi then hi else if x < lo then lo else x) = clamp x lo hi"
  by (simp add: clamp_def)

lemma PID_Compute_in_rejected:
  assumes "\<not> (inAuto p \<and> now - lastTime p \<ge> SampleTime p)"
  shows "PID_Compute_in A now p m = Some (False, p, m)"
  using assms by (cases "inAuto p") (simp_all add: PID_Compute_in_def Let_def)

lemma PID_Compute_in_accepted:
  assumes "inAuto p" and "now - lastTime p \<ge> SampleTime p"
  shows "PID_Compute_in A now p m =
     do {
       error \<leftarrow> fsub A (m (mySetpoint p)) (m (myInput p));
       dInput \<leftarrow> fsub A (m (myInput p)) (lastInput p);
       t1 \<leftarrow> fmul A (ki p) error;
       s1 \<leftarrow> fadd A (outputSum p) t1;
       s \<leftarrow> (if \<not> pOnE p then do { t2 \<leftarrow> fmul A (kp p) dInput; fsub A s1 t2 } else Some s1);
       output0 \<leftarrow> (if pOnE p then fmul A (kp p) error else Some 0);
       t3 \<leftarrow> fmul A (kd p) dInput;
       t4 \<leftarrow> fsub A (clamp s (outMin p) (outMax p)) t3;
       output1 \<leftarrow> fadd A output0 t4;
       Some (True,
             p\<lparr>outputSum := clamp s (outMin p) (outMax p),
               lastInput := m (myInput p), lastTime := now\<rparr>,
             m(myOutput p := clamp output1 (outMin p) (outMax p)))
     }"
  using assms
  by (cases "pOnE p")
    (simp_all add: PID_Compute_in_def saturate_outputSum saturate_value Let_def
      split del: if_split cong: Option.bind_cong)

lemma PID_Compute_saturated:
  assumes "inAuto p" and "now - lastTime p \<ge> SampleTime p"
  shows "PID_Compute now p m =
     (let error = m (mySetpoint p) - m (myInput p);
          dInput = m (myInput p) - lastInput p;
          s = (if \<not> pOnE p then outputSum p + ki p * error - kp p * dInput
               else outputSum p + ki p * error);
          output0 = (if pOnE p then kp p * error else 0)
      in (True,
          p\<lparr>outputSum := clamp s (outMin p) (outMax p),
            lastInput := m (myInput p), lastTime := now\<rparr>,
          m(myOutput p :=
              clamp (output0 + (clamp s (outMin p) (outMax p) - kd p * dInput))
                (outMin p) (outMax p))))"
  using assms
  by (cases "pOnE p")
    (simp_all add: PID_Compute_def saturate_outputSum saturate_value Let_def
      split del: if_split)

lemma PID_Compute_in_exact: "PID_Compute_in exact now p m = Some (PID_Compute now p m)"
proof (cases "inAuto p \<and> now - lastTime p \<ge> SampleTime p")
  case True
  then have a: "inAuto p" and d: "now - lastTime p \<ge> SampleTime p"
    by simp_all
  show ?thesis
    unfolding PID_Compute_in_accepted [OF a d] PID_Compute_saturated [OF a d]
    by (cases "pOnE p") (simp_all add: exact_def Let_def)
next
  case False
  then have "PID_Compute now p m = (False, p, m)"
    by (cases "inAuto p") (simp_all add: PID_Compute_def Let_def)
  with PID_Compute_in_rejected [OF False] show ?thesis
    by simp
qed

lemma PID_SetTunings_in_exact: "PID_SetTunings_in exact p Kp Ki Kd POn = PID_SetTunings p Kp Ki Kd POn"
  by (simp add: PID_SetTunings_in_def PID_SetTunings_def exact_def ddiv_def Let_def)

lemma PID_SetTunings_simple_in_exact:
  "PID_SetTunings_simple_in exact p Kp Ki Kd = PID_SetTunings_simple p Kp Ki Kd"
  by (simp add: PID_SetTunings_simple_in_def PID_SetTunings_simple_def PID_SetTunings_in_exact)

lemma PID_SetSampleTime_in_exact: "PID_SetSampleTime_in exact p N = PID_SetSampleTime p N"
  by (simp add: PID_SetSampleTime_in_def PID_SetSampleTime_def exact_def ddiv_def Let_def)

lemma PID_constructor_in_exact:
  "PID_constructor_in exact now p m Input Output Setpoint Kp Ki Kd POn Direction =
   PID_constructor now p m Input Output Setpoint Kp Ki Kd POn Direction"
  by (simp add: PID_constructor_in_def PID_constructor_def PID_SetTunings_in_exact)

lemma PID_Compute_in_shape:
  assumes "PID_Compute_in A now p m = Some (r, p', m')"
  shows "(r \<longleftrightarrow> inAuto p \<and> now - lastTime p \<ge> SampleTime p) \<and>
         (\<not> r \<longrightarrow> p' = p \<and> m' = m) \<and>
         (r \<longrightarrow> (\<exists>x y. p' = p\<lparr>outputSum := clamp x (outMin p) (outMax p),
                                  lastInput := m (myInput p), lastTime := now\<rparr> \<and>
                         m' = m(myOutput p := clamp y (outMin p) (outMax p))))"
proof (cases "inAuto p \<and> now - lastTime p \<ge> SampleTime p")
  case False
  with assms PID_Compute_in_rejected [OF False, of A m] show ?thesis
    by auto
next
  case True
  then have a: "inAuto p" and d: "now - lastTime p \<ge> SampleTime p"
    by simp_all
  from assms [unfolded PID_Compute_in_accepted [OF a d]]
  obtain s output1 where "r" and
    "p' = p\<lparr>outputSum := clamp s (outMin p) (outMax p),
              lastInput := m (myInput p), lastTime := now\<rparr>" and
    "m' = m(myOutput p := clamp output1 (outMin p) (outMax p))"
    by (auto simp: bind_eq_Some_conv)
  with True show ?thesis
    by blast
qed

subsection \<open>The invariant of the output limits\<close>

text \<open>
  Every call keeps \<open>limits_inv\<close>, whatever the arithmetic, provided it returns. In exact
  arithmetic every call returns.
\<close>

lemma limits_inv_Compute_in:
  assumes "limits_inv p" and "PID_Compute_in A now p m = Some (r, p', m')"
  shows "limits_inv p'"
proof (cases r)
  case False
  with PID_Compute_in_shape [OF assms(2)] assms(1) show ?thesis
    by simp
next
  case True
  with PID_Compute_in_shape [OF assms(2)] obtain x where
    "p' = p\<lparr>outputSum := clamp x (outMin p) (outMax p),
            lastInput := m (myInput p), lastTime := now\<rparr>"
    by blast
  moreover have "outMin p \<le> outMax p"
    using assms(1) by (simp add: limits_inv_def)
  ultimately show ?thesis
    using assms(1) clamp_bounds [of "outMin p" "outMax p" x]
    by (simp add: limits_inv_def within_limits_def)
qed

lemma limits_inv_SetTunings_in:
  assumes "limits_inv p" and "PID_SetTunings_in A p Kp Ki Kd POn = Some p'"
  shows "limits_inv p'"
  using assms
  by (auto simp: limits_inv_def within_limits_def PID_SetTunings_in_def Let_def
      bind_eq_Some_conv split: if_splits)

lemma limits_inv_SetSampleTime_in:
  assumes "limits_inv p" and "PID_SetSampleTime_in A p N = Some p'"
  shows "limits_inv p'"
proof (cases "0 < sint N")
  case True
  then have "N \<noteq> 0"
    by auto
  with True assms show ?thesis
    by (auto simp: limits_inv_def within_limits_def PID_SetSampleTime_in_def
        bind_eq_Some_conv)
next
  case False
  with assms show ?thesis
    by (simp add: PID_SetSampleTime_in_def)
qed

lemma limits_inv_SetOutputLimits:
  "limits_inv p \<Longrightarrow> limits_inv (fst (PID_SetOutputLimits p m Min' Max'))"
  by (simp add: limits_inv_def within_limits_def PID_SetOutputLimits_def Let_def)

lemma limits_inv_Initialize: "limits_inv p \<Longrightarrow> limits_inv (PID_Initialize p m)"
  by (simp add: limits_inv_def within_limits_def PID_Initialize_def Let_def)

lemma limits_inv_SetMode: "limits_inv p \<Longrightarrow> limits_inv (PID_SetMode p m Mode)"
  by (simp add: limits_inv_def within_limits_def PID_SetMode_def PID_Initialize_def Let_def)

lemma limits_inv_SetControllerDirection:
  "limits_inv p \<Longrightarrow> limits_inv (PID_SetControllerDirection p Direction)"
  by (simp add: limits_inv_def within_limits_def PID_SetControllerDirection_def Let_def)

lemma limits_inv_api_step_in:
  assumes "limits_inv p" and "api_step_in A (p, m) c = Some (p', m')"
  shows "limits_inv p'"
proof (cases c)
  case (Compute now)
  with assms(2) obtain r where "PID_Compute_in A now p m = Some (r, p', m')"
    by auto
  from limits_inv_Compute_in [OF assms(1) this] show ?thesis .
next
  case (SetTunings Kp Ki Kd POn)
  with assms(2) have "PID_SetTunings_in A p Kp Ki Kd POn = Some p'"
    by auto
  from limits_inv_SetTunings_in [OF assms(1) this] show ?thesis .
next
  case (SetTunings_simple Kp Ki Kd)
  with assms(2) have "PID_SetTunings_in A p Kp Ki Kd (pOn p) = Some p'"
    by (auto simp: PID_SetTunings_simple_in_def)
  from limits_inv_SetTunings_in [OF assms(1) this] show ?thesis .
next
  case (SetSampleTime N)
  with assms(2) have "PID_SetSampleTime_in A p N = Some p'"
    by auto
  from limits_inv_SetSampleTime_in [OF assms(1) this] show ?thesis .
next
  case (SetOutputLimits Min' Max')
  with assms(2) have "p' = fst (PID_SetOutputLimits p m Min' Max')"
    by auto
  with limits_inv_SetOutputLimits [OF assms(1), of m Min' Max'] show ?thesis
    by simp
next
  case (SetMode Mode)
  with assms limits_inv_SetMode [OF assms(1), of m Mode] show ?thesis
    by auto
next
  case Initialize
  with assms limits_inv_Initialize [OF assms(1), of m] show ?thesis
    by auto
next
  case (SetControllerDirection Direction)
  with assms limits_inv_SetControllerDirection [OF assms(1), of Direction] show ?thesis
    by auto
next
  case (Caller_write a v)
  with assms show ?thesis
    by auto
qed

lemma limits_inv_run_in:
  "limits_inv p \<Longrightarrow> run_in A (p, m) cs = Some (p', m') \<Longrightarrow> limits_inv p'"
proof (induction cs arbitrary: p m)
  case Nil
  then show ?case by simp
next
  case (Cons c cs)
  from Cons.prems(2) obtain p1 m1 where
    s: "api_step_in A (p, m) c = Some (p1, m1)" and r: "run_in A (p1, m1) cs = Some (p', m')"
    by (auto split: option.splits)
  from limits_inv_api_step_in [OF Cons.prems(1) s] have "limits_inv p1" .
  from Cons.IH [OF this r] show ?case .
qed

lemma PID_constructor_in_limits_inv:
  assumes "PID_constructor_in A now p m Input Output Setpoint Kp Ki Kd POn Direction
             = Some (p', m')"
  shows "limits_inv p' \<and> m' = m"
  using assms
  by (auto simp: PID_constructor_in_def PID_SetOutputLimits_def PID_SetControllerDirection_def
      PID_SetTunings_in_def Let_def limits_inv_def bind_eq_Some_conv split: if_splits)

text \<open>In exact arithmetic every call returns.\<close>

lemma api_step_exact_total:
  assumes "limits_inv p"
  shows "\<exists>s. api_step_in exact (p, m) c = Some s"
proof (cases c)
  case (SetTunings Kp Ki Kd POn)
  with assms show ?thesis
    by (simp add: PID_SetTunings_in_exact PID_SetTunings_def Let_def ddiv_def
        limits_inv_def unsigned_eq_0_iff)
next
  case (SetTunings_simple Kp Ki Kd)
  with assms show ?thesis
    by (simp add: PID_SetTunings_simple_in_exact PID_SetTunings_simple_def
        PID_SetTunings_def Let_def ddiv_def limits_inv_def unsigned_eq_0_iff)
next
  case (SetSampleTime N)
  show ?thesis
  proof (cases "0 < sint N")
    case True
    then have "real_of_int (sint N) \<noteq> 0"
      using real_sint_pos [of N] by auto
    with True assms SetSampleTime show ?thesis
      by (simp add: PID_SetSampleTime_in_exact PID_SetSampleTime_def ddiv_def
          limits_inv_def unsigned_eq_0_iff)
  next
    case False
    with SetSampleTime show ?thesis
      by (simp add: PID_SetSampleTime_in_exact PID_SetSampleTime_def)
  qed
qed (simp_all add: PID_Compute_in_exact)

lemma run_exact_total:
  "limits_inv p \<Longrightarrow> \<exists>p' m'. run (p, m) cs = Some (p', m') \<and> limits_inv p'"
proof (induction cs arbitrary: p m)
  case Nil
  then show ?case by simp
next
  case (Cons c cs)
  from api_step_exact_total [OF Cons.prems, of m c]
  obtain p1 m1 where s: "api_step_in exact (p, m) c = Some (p1, m1)"
    by auto
  from limits_inv_api_step_in [OF Cons.prems s] have "limits_inv p1" .
  from Cons.IH [OF this, of m1] s show ?case
    by simp
qed

lemma PID_constructor_limits_inv:
  "\<exists>p' m'. PID_constructor now p m Input Output Setpoint Kp Ki Kd POn Direction = Some (p', m')
     \<and> limits_inv p' \<and> m' = m"
  by (simp add: PID_constructor_def PID_SetOutputLimits_def PID_SetControllerDirection_def
      PID_SetTunings_def ddiv_def Let_def limits_inv_def)

lemma SampleTime_never_zero:
  "\<exists>p0. PID_constructor now0 raw m0 Input Output Setpoint Kp Ki Kd POn Direction
            = Some (p0, m0) \<and>
     (\<exists>p m. run (p0, m0) cs = Some (p, m) \<and> SampleTime p \<noteq> 0)"
proof -
  from PID_constructor_limits_inv [of now0 raw m0 Input Output Setpoint Kp Ki Kd POn Direction]
  obtain p0 where c: "PID_constructor now0 raw m0 Input Output Setpoint Kp Ki Kd POn Direction
      = Some (p0, m0)" and i0: "limits_inv p0"
    by blast
  from run_exact_total [OF i0, of m0 cs]
  obtain p m where "run (p0, m0) cs = Some (p, m)" and "limits_inv p"
    by blast
  with c show ?thesis
    by (auto simp: limits_inv_def)
qed

lemma PID_SetOutputLimits_within:
  assumes "inAuto p" and "Min' < Max'"
  shows "outMin (fst (PID_SetOutputLimits p m Min' Max')) = Min' \<and>
         outMax (fst (PID_SetOutputLimits p m Min' Max')) = Max' \<and>
         within_limits (fst (PID_SetOutputLimits p m Min' Max'))
           (outputSum (fst (PID_SetOutputLimits p m Min' Max'))) \<and>
         within_limits (fst (PID_SetOutputLimits p m Min' Max'))
           (snd (PID_SetOutputLimits p m Min' Max') (myOutput (fst (PID_SetOutputLimits p m Min' Max'))))"
  using assms
  by (simp add: PID_SetOutputLimits_def Let_def within_limits_def)

lemma PID_Compute_in_within:
  assumes lim: "outMin p < outMax p" and acc: "PID_Compute_in A now p m = Some (True, p', m')"
  shows "within_limits p' (outputSum p') \<and> within_limits p' (m' (myOutput p'))"
proof -
  from PID_Compute_in_shape [OF acc] obtain x y where
    "p' = p\<lparr>outputSum := clamp x (outMin p) (outMax p),
            lastInput := m (myInput p), lastTime := now\<rparr>"
    "m' = m(myOutput p := clamp y (outMin p) (outMax p))"
    by blast
  moreover have "outMin p \<le> outMax p"
    using lim by simp
  ultimately show ?thesis
    using clamp_bounds [of "outMin p" "outMax p"]
    by (simp add: within_limits_def)
qed

text \<open>
  The sample period is never zero in a state the constructor and the calls lead to, so
  no division of \<open>PID_SetTunings\<close> or \<open>PID_SetSampleTime\<close> has a zero divisor there.
  This holds for every arithmetic.
\<close>

lemma SampleTime_never_zero_in:
  assumes "PID_constructor_in A now0 raw m0 Input Output Setpoint Kp Ki Kd POn Direction
             = Some (p0, m1)"
    and "run_in A (p0, m1) cs = Some (p, m)"
  shows "SampleTime p \<noteq> 0"
proof -
  from PID_constructor_in_limits_inv [OF assms(1)] have "limits_inv p0"
    by simp
  from limits_inv_run_in [OF this assms(2)] show ?thesis
    by (simp add: limits_inv_def)
qed

subsection \<open>Rounding to binary64\<close>

text \<open>
  \<open>round64\<close> returns a double, at most half a unit in the last place away from its
  argument: a multiple \<open>n * 2 ^ (e - 52)\<close> with \<open>\<bar>n\<bar> \<le> 2 ^ 53\<close> and
  \<open>-1022 \<le> e \<le> 1023\<close>, of magnitude at most the largest double. Some values follow:
  one tenth, the two kinds of tie, and the ends of the range.
\<close>

lemma expo_numeral:
  "expo (numeral k) x =
     (if 2 \<le> x then expo (pred_numeral k) (x / 2) + 1
      else if x < 1 then expo (pred_numeral k) (2 * x) - 1 else 0)"
  by (simp add: numeral_eq_Suc)

lemmas round64_eval = round64_def expo_numeral half_even_def ulp_at_def

lemma expo_bounds:
  "0 < x \<Longrightarrow> 1 / 2 ^ n \<le> x \<Longrightarrow> x < 2 ^ Suc n \<Longrightarrow>
     2 powi (expo n x) \<le> x \<and> x < 2 powi (expo n x + 1)"
proof (induction n arbitrary: x)
  case 0
  then show ?case by simp
next
  case (Suc n)
  show ?case
  proof (cases "2 \<le> x")
    case True
    have "2 powi (expo n (x / 2)) \<le> x / 2 \<and> x / 2 < 2 powi (expo n (x / 2) + 1)"
    proof (rule Suc.IH)
      show "0 < x / 2" using Suc.prems by simp
      have "1 / 2 ^ n \<le> (1::real)" by simp
      also have "1 \<le> x / 2" using True by simp
      finally show "1 / 2 ^ n \<le> x / 2" .
      show "x / 2 < 2 ^ Suc n" using Suc.prems by simp
    qed
    then have "2 * 2 powi (expo n (x / 2)) \<le> x \<and> x < 2 * 2 powi (expo n (x / 2) + 1)"
      by simp
    then show ?thesis
      using True by (simp add: power_int_add algebra_simps)
  next
    case False
    show ?thesis
    proof (cases "x < 1")
      case True
      have "2 powi (expo n (2 * x)) \<le> 2 * x \<and> 2 * x < 2 powi (expo n (2 * x) + 1)"
      proof (rule Suc.IH)
        show "0 < 2 * x" using Suc.prems by simp
        show "1 / 2 ^ n \<le> 2 * x" using Suc.prems by (simp add: field_simps)
        have "2 * x < 2" using True by simp
        also have "(2::real) \<le> 2 ^ Suc n" by simp
        finally show "2 * x < 2 ^ Suc n" .
      qed
      then have "2 powi (expo n (2 * x)) / 2 \<le> x \<and> x < 2 powi (expo n (2 * x) + 1) / 2"
        by simp
      then show ?thesis
        using True False by (simp add: power_int_add power_int_diff algebra_simps)
    next
      case False
      with \<open>\<not> 2 \<le> x\<close> show ?thesis by simp
    qed
  qed
qed

lemma half_even_near: "\<bar>of_int (half_even q) - q\<bar> \<le> 1 / 2"
  by (simp add: half_even_def Let_def)

lemma expo_nonpos: "x < 2 \<Longrightarrow> expo n x \<le> 0"
proof (induction n arbitrary: x)
  case 0
  then show ?case by simp
next
  case (Suc n)
  show ?case
  proof (cases "x < 1")
    case True
    then have "2 * x < 2"
      by simp
    from Suc.IH [OF this] True Suc.prems show ?thesis
      by simp
  next
    case False
    with Suc.prems show ?thesis
      by simp
  qed
qed

lemma ulp_at_powi: "ulp_at e = 2 powi (e - 52)"
  by (simp add: ulp_at_def power_int_def power_one_over inverse_eq_divide)

lemma ulp_at_pos: "0 < ulp_at e"
  by (simp add: ulp_at_powi)

lemma round64_sound:
  assumes "round64 x = Some y"
  shows "\<exists>e n. - 1022 \<le> e \<and> e \<le> 1023 \<and> \<bar>n\<bar> \<le> 2 ^ 53 \<and> y = of_int n * ulp_at e \<and>
           \<bar>y - x\<bar> \<le> ulp_at e / 2 \<and> \<bar>y\<bar> \<le> 2 ^ 1024 - 2 ^ 971"
proof (cases "x = 0")
  case True
  with assms have "y = 0"
    by (simp add: round64_def)
  with True show ?thesis
    by (intro exI [of _ 0]) (simp add: ulp_at_pos less_imp_le)
next
  case False
  define a where "a = \<bar>x\<bar>"
  define e where "e = max (expo 1100 a) (- 1022)"
  define u where "u = ulp_at e"
  define q where "q = x / u"
  define n where "n = half_even q"
  have a0: "0 < a"
    using False by (simp add: a_def)
  have fin: "a < 2 ^ 1024 - 2 ^ 970"
    using assms False by (simp add: round64_def a_def split: if_splits)
  have y: "y = of_int n * u"
    using assms False fin
    by (simp add: round64_def a_def e_def u_def q_def n_def Let_def split: if_splits)
  have u0: "0 < u"
    by (simp add: u_def ulp_at_pos)
  have lo: "- 1022 \<le> e"
    by (simp add: e_def)
  have up: "a < 2 powi (e + 1)" and hi: "e \<le> 1023"
  proof -
    show "a < 2 powi (e + 1)"
    proof (cases "1 / 2 ^ 1100 \<le> a")
      case True
      have "a < 2 ^ Suc 1100"
        using fin by simp
      from expo_bounds [OF a0 True this] have "a < 2 powi (expo 1100 a + 1)"
        by simp
      also have "\<dots> \<le> 2 powi (e + 1)"
        by (rule power_int_increasing) (simp_all add: e_def)
      finally show ?thesis .
    next
      case False
      then have "a < 1 / 2 ^ 1100"
        by simp
      also have "\<dots> = 2 powi (- 1100)"
        by (simp add: power_int_minus inverse_eq_divide)
      also have "\<dots> \<le> 2 powi (e + 1)"
        by (rule power_int_increasing) (use lo in simp_all)
      finally show ?thesis .
    qed
    show "e \<le> 1023"
    proof (cases "1 / 2 ^ 1100 \<le> a")
      case True
      have "a < 2 ^ Suc 1100"
        using fin by simp
      from expo_bounds [OF a0 True this] have "2 powi (expo 1100 a) \<le> a"
        by simp
      also have "a < 2 powi 1024"
        using fin by simp
      finally have "(2::real) powi (expo 1100 a) < 2 powi 1024" .
      then have "expo 1100 a < 1024"
        by (rule power_int_le_imp_less_exp [rotated]) simp_all
      then show ?thesis
        by (simp add: e_def)
    next
      case False
      then have "a < 2"
        by (simp add: field_simps) 
      from expo_nonpos [OF this, of 1100] have "expo 1100 a \<le> 0" .
      then show ?thesis
        by (simp add: e_def)
    qed
  qed
  have q: "\<bar>q\<bar> < 2 ^ 53"
  proof -
    have "\<bar>q\<bar> = a / u"
      using u0 by (simp add: q_def a_def)
    also have "\<dots> < 2 powi (e + 1) / u"
      using up u0 by (simp add: divide_strict_right_mono)
    also have "\<dots> = 2 powi 53"
      by (simp add: u_def ulp_at_powi power_int_diff power_int_add)
    finally show ?thesis
      by simp
  qed
  have near: "\<bar>of_int n - q\<bar> \<le> 1 / 2"
    unfolding n_def by (rule half_even_near)
  have nb: "\<bar>n\<bar> \<le> 2 ^ 53"
  proof -
    have "\<bar>real_of_int n\<bar> < 2 ^ 53 + 1"
      using near q by linarith
    then show ?thesis
      by simp
  qed
  have err: "\<bar>y - x\<bar> \<le> u / 2"
  proof -
    have "y - x = (of_int n - q) * u"
      using u0 by (simp add: y q_def algebra_simps)
    then have "\<bar>y - x\<bar> = \<bar>of_int n - q\<bar> * u"
      using u0 by (simp add: abs_mult)
    also have "\<dots> \<le> 1 / 2 * u"
      using near u0 by (simp add: mult_right_mono)
    finally show ?thesis
      by simp
  qed
  have big: "\<bar>y\<bar> \<le> 2 ^ 1024 - 2 ^ 971"
  proof (cases "e = 1023")
    case True
    then have u: "u = 2 ^ 971"
      by (simp add: u_def ulp_at_def)
    have "\<bar>q\<bar> = a / u"
      using u0 by (simp add: q_def a_def)
    also have "\<dots> < (2 ^ 1024 - 2 ^ 970) / u"
      using fin u0 by (simp add: divide_strict_right_mono)
    also have "\<dots> = 2 ^ 53 - 1 / 2"
      by (simp add: u)
    finally have "\<bar>real_of_int n\<bar> < 2 ^ 53"
      using near by linarith
    then have "\<bar>n\<bar> < 2 ^ 53"
      by simp
    then have "\<bar>n\<bar> \<le> 2 ^ 53 - 1"
      by simp
    then have "\<bar>real_of_int n\<bar> \<le> 2 ^ 53 - 1"
      by simp
    then have "\<bar>real_of_int n\<bar> * u \<le> (2 ^ 53 - 1) * u"
      using u0 by (simp add: mult_right_mono)
    then show ?thesis
      by (simp add: y abs_mult u)
  next
    case False
    with hi have "e \<le> 1022"
      by simp
    then have "u \<le> 2 powi 970"
      unfolding u_def ulp_at_powi by (intro power_int_increasing) simp_all
    moreover have "\<bar>real_of_int n\<bar> \<le> 2 ^ 53"
      using nb by simp
    ultimately have "\<bar>real_of_int n\<bar> * u \<le> 2 ^ 53 * 2 powi 970"
      using u0 by (intro mult_mono) simp_all
    then show ?thesis
      using u0 by (simp add: y abs_mult)
  qed
  from lo hi nb y err big show ?thesis
    unfolding u_def by blast
qed

lemma round64_tenth: "round64 (1 / 10) = Some (3602879701896397 / 2 ^ 55)"
  by (simp add: round64_eval Let_def)

lemma round64_tie_down: "round64 (1 + 1 / 2 ^ 53) = Some 1"
  by (simp add: round64_eval Let_def)

lemma round64_tie_up: "round64 (1 + 3 / 2 ^ 53) = Some (1 + 1 / 2 ^ 51)"
  by (simp add: round64_eval Let_def)

lemma round64_overflow: "round64 (2 ^ 1024 - 2 ^ 970) = None"
  by (simp add: round64_def)

lemma round64_largest: "round64 (2 ^ 1024 - 2 ^ 971) = Some (2 ^ 1024 - 2 ^ 971)"
  by (simp add: round64_eval Let_def)

lemma round64_smallest: "round64 (1 / 2 ^ 1074) = Some (1 / 2 ^ 1074)"
  by (simp add: round64_eval Let_def)

lemma round64_underflow: "round64 (1 / 2 ^ 1075) = Some 0"
  by (simp add: round64_eval Let_def)

subsection \<open>Concrete calls and runs\<close>

lemma run_auto_manual_limits:
  "run (pid_manual, manual_mem) [SetMode AUTOMATIC, SetMode MANUAL, SetOutputLimits 0 50]
     = Some (pid_manual\<lparr>outputSum := 100, outMax := 50\<rparr>, manual_mem)"
  by (simp add: PID_SetMode_def PID_Initialize_def PID_SetOutputLimits_def Let_def
      pid_manual_def manual_mem_def AUTOMATIC_def MANUAL_def)

lemma run_limits_auto:
  "run (pid_manual, manual_mem) [SetOutputLimits 0 50, SetMode AUTOMATIC]
     = Some (pid_auto\<lparr>outputSum := 50, outMax := 50\<rparr>, manual_mem)"
  by (simp add: PID_SetMode_def PID_Initialize_def PID_SetOutputLimits_def Let_def
      pid_auto_def pid_manual_def manual_mem_def AUTOMATIC_def)

lemma PID_constructor_in_binary64_manual_mem:
  "PID_constructor_in binary64 100 pid_raw manual_mem 0 1 2 1 0 0 P_ON_E DIRECT
     = Some (pid_manual, manual_mem)"
  by (simp add: PID_constructor_in_def PID_SetOutputLimits_def PID_SetControllerDirection_def
      PID_SetTunings_in_def binary64_def round64_eval Let_def pid_raw_def pid_manual_def
      DIRECT_def REVERSE_def P_ON_E_def)

lemma run_in_binary64_auto:
  "run_in binary64 (pid_manual, manual_mem) [SetMode AUTOMATIC]
     = Some (pid_auto\<lparr>outputSum := 100\<rparr>, manual_mem)"
  by (simp add: PID_SetMode_def PID_Initialize_def Let_def
      pid_auto_def pid_manual_def manual_mem_def AUTOMATIC_def)

lemma run_in_binary64_auto_manual_limits:
  "run_in binary64 (pid_manual, manual_mem)
     [SetMode AUTOMATIC, SetMode MANUAL, SetOutputLimits 0 50]
     = Some (pid_manual\<lparr>outputSum := 100, outMax := 50\<rparr>, manual_mem)"
  by (simp add: PID_SetMode_def PID_Initialize_def PID_SetOutputLimits_def Let_def
      pid_manual_def manual_mem_def AUTOMATIC_def MANUAL_def)

lemma run_in_binary64_limits_auto:
  "run_in binary64 (pid_manual, manual_mem) [SetOutputLimits 0 50, SetMode AUTOMATIC]
     = Some (pid_auto\<lparr>outputSum := 50, outMax := 50\<rparr>, manual_mem)"
  by (simp add: PID_SetMode_def PID_Initialize_def PID_SetOutputLimits_def Let_def
      pid_auto_def pid_manual_def manual_mem_def AUTOMATIC_def)

lemma compute_in_binary64_after_auto:
  "PID_Compute_in binary64 100 (pid_auto\<lparr>outputSum := 100\<rparr>) manual_mem
     = Some (True, pid_auto\<lparr>outputSum := 100, lastTime := 100\<rparr>, manual_mem(1 := 110))"
proof -
  have a: "inAuto (pid_auto\<lparr>outputSum := 100\<rparr>)"
    and d: "100 - lastTime (pid_auto\<lparr>outputSum := 100\<rparr>) \<ge> SampleTime (pid_auto\<lparr>outputSum := 100\<rparr>)"
    by (simp_all add: pid_auto_def pid_manual_def)
  show ?thesis
    unfolding PID_Compute_in_accepted [OF a d]
    by (simp add: binary64_def round64_eval Let_def clamp_def pid_auto_def pid_manual_def manual_mem_def)
qed

lemma limits_after_auto:
  "PID_SetOutputLimits (pid_auto\<lparr>outputSum := 100\<rparr>) manual_mem 0 50
     = (pid_auto\<lparr>outputSum := 50, outMax := 50\<rparr>, manual_mem(1 := 50))"
  by (simp add: PID_SetOutputLimits_def Let_def pid_auto_def pid_manual_def manual_mem_def)

text \<open>The inputs at which the difference of setpoint and input overflows.\<close>

lemma compute_in_binary64_overflow:
  "PID_Compute_in binary64 100 pid_auto ((\<lambda>_. 0)(0 := - (2 ^ 1023), 2 := 2 ^ 1023)) = None"
proof -
  have a: "inAuto pid_auto"
    and d: "100 - lastTime pid_auto \<ge> SampleTime pid_auto"
    by (simp_all add: pid_auto_def pid_manual_def)
  show ?thesis
    unfolding PID_Compute_in_accepted [OF a d]
    by (simp add: binary64_def round64_def pid_auto_def pid_manual_def)
qed




section \<open>Properties of compute\<close>



text \<open>
  C2. For every controller and store, \<open>PID_Compute\<close> returns false and hands back the
  structure and the store exactly as it received them when the controller is not in
  automatic mode, and also when it is in automatic mode but the time elapsed since
  \<open>lastTime\<close> (the wrapping difference the source computes) is strictly less than
  \<open>SampleTime\<close>.
\<close>

theorem PID_Compute_rejected:
  "(\<not> inAuto p \<longrightarrow> PID_Compute now p m = (False, p, m)) \<and>
   (inAuto p \<and> now - lastTime p < SampleTime p \<longrightarrow> PID_Compute now p m = (False, p, m))"
  by (auto simp: PID_Compute_def Let_def)

theorem PID_Compute_rejected_witness:
  "\<not> inAuto pid_manual \<and>
   PID_Compute 100 pid_manual scenario_mem = (False, pid_manual, scenario_mem) \<and>
   inAuto pid_auto \<and> 50 - lastTime pid_auto < SampleTime pid_auto \<and>
   PID_Compute 50 pid_auto scenario_mem = (False, pid_auto, scenario_mem)"
  using PID_Compute_rejected [of pid_manual 100 scenario_mem]
    PID_Compute_rejected [of pid_auto 50 scenario_mem]
  by (simp add: pid_auto_def pid_manual_def)

text \<open>
  C10. \<open>PID_Compute\<close> writes no cell other than the output cell: every address different
  from \<open>myOutput\<close> holds the same value after the call, so the input cell and the setpoint
  cell are never written (they are cells of their own, distinct from the output cell).
  The store is unchanged altogether unless the call is accepted, that is unless it
  returns true, which it does exactly in automatic mode with the sample time elapsed. The
  three addresses themselves are never redirected.
\<close>

theorem PID_Compute_writes_output_only:
  "(a \<noteq> myOutput p \<longrightarrow> snd (snd (PID_Compute now p m)) a = m a) \<and>
   (\<not> fst (PID_Compute now p m) \<longrightarrow> snd (snd (PID_Compute now p m)) = m) \<and>
   (fst (PID_Compute now p m) \<longleftrightarrow> inAuto p \<and> now - lastTime p \<ge> SampleTime p) \<and>
   myInput (fst (snd (PID_Compute now p m))) = myInput p \<and>
   myOutput (fst (snd (PID_Compute now p m))) = myOutput p \<and>
   mySetpoint (fst (snd (PID_Compute now p m))) = mySetpoint p"
  by (simp add: PID_Compute_def Let_def)

theorem PID_Compute_writes_output_only_witness:
  "myInput pid_auto \<noteq> myOutput pid_auto \<and> mySetpoint pid_auto \<noteq> myOutput pid_auto \<and>
   fst (PID_Compute 100 pid_auto scenario_mem) \<and>
   snd (snd (PID_Compute 100 pid_auto scenario_mem)) (myInput pid_auto) = 0 \<and>
   snd (snd (PID_Compute 100 pid_auto scenario_mem)) (mySetpoint pid_auto) = 10 \<and>
   \<not> fst (PID_Compute 50 pid_auto scenario_mem) \<and>
   snd (snd (PID_Compute 50 pid_auto scenario_mem)) = scenario_mem"
  using PID_Compute_writes_output_only [of 0 pid_auto 100 scenario_mem]
    PID_Compute_writes_output_only [of 2 pid_auto 100 scenario_mem]
    PID_Compute_writes_output_only [of 0 pid_auto 50 scenario_mem]
  by (simp add: pid_auto_def pid_manual_def scenario_mem_def)

section \<open>The output limits\<close>

text \<open>
  C3, as the spec states it: after every call of the public interface, in automatic or
  in manual mode, both \<open>outputSum\<close> and the output cell lie within
  \<open>[outMin, outMax]\<close>. The source does not do that. \<open>PID_SetOutputLimits\<close> clamps
  only under \<open>if(p_PID->inAuto)\<close>: constructed with the output cell at 100, switched to
  automatic (which seeds \<open>outputSum\<close> with 100) and back to manual, the controller
  accepts the limits \<open>[0, 50]\<close> and leaves both \<open>outputSum\<close> and the output cell at
  100. And \<open>PID_Initialize\<close> clamps \<open>outputSum\<close> but not the cell: with the limits
  \<open>[0, 50]\<close> set in manual mode, the switch to automatic leaves the cell at 100.
  The runs are written in exact arithmetic; in binary64 the constructor and both runs give
  the same states (\<open>PID_constructor_in_binary64_manual_mem\<close>,
  \<open>run_in_binary64_auto_manual_limits\<close>, \<open>run_in_binary64_limits_auto\<close>).
\<close>

theorem limits_not_kept_in_manual_counterexample:
  "PID_constructor 100 pid_raw manual_mem 0 1 2 1 0 0 P_ON_E DIRECT
     = Some (pid_manual, manual_mem) \<and>
   run (pid_manual, manual_mem) [SetMode AUTOMATIC, SetMode MANUAL, SetOutputLimits 0 50]
     = Some (pid_manual\<lparr>outputSum := 100, outMax := 50\<rparr>, manual_mem) \<and>
   \<not> outputSum (pid_manual\<lparr>outputSum := 100, outMax := 50\<rparr>)
       \<le> outMax (pid_manual\<lparr>outputSum := 100, outMax := 50\<rparr>) \<and>
   \<not> manual_mem (myOutput (pid_manual\<lparr>outputSum := 100, outMax := 50\<rparr>))
       \<le> outMax (pid_manual\<lparr>outputSum := 100, outMax := 50\<rparr>) \<and>
   run (pid_manual, manual_mem) [SetOutputLimits 0 50, SetMode AUTOMATIC]
     = Some (pid_auto\<lparr>outputSum := 50, outMax := 50\<rparr>, manual_mem) \<and>
   inAuto (pid_auto\<lparr>outputSum := 50, outMax := 50\<rparr>) \<and>
   \<not> manual_mem (myOutput (pid_auto\<lparr>outputSum := 50, outMax := 50\<rparr>))
       \<le> outMax (pid_auto\<lparr>outputSum := 50, outMax := 50\<rparr>)"
proof (intro conjI)
  show "PID_constructor 100 pid_raw manual_mem 0 1 2 1 0 0 P_ON_E DIRECT
     = Some (pid_manual, manual_mem)"
    by (rule PID_constructor_manual_mem)
  show "run (pid_manual, manual_mem) [SetMode AUTOMATIC, SetMode MANUAL, SetOutputLimits 0 50]
     = Some (pid_manual\<lparr>outputSum := 100, outMax := 50\<rparr>, manual_mem)"
    by (rule run_auto_manual_limits)
  show "run (pid_manual, manual_mem) [SetOutputLimits 0 50, SetMode AUTOMATIC]
     = Some (pid_auto\<lparr>outputSum := 50, outMax := 50\<rparr>, manual_mem)"
    by (rule run_limits_auto)
qed (simp_all add: pid_auto_def pid_manual_def manual_mem_def)

text \<open>
  C3, amended. Take any arithmetic, the code's binary64 in particular, and any state that
  the constructor and a sequence of calls lead to with every operation on doubles giving
  a finite double (no overflow, no division by zero), the caller writing finite values
  into the cells in between. In that state \<open>outMin < outMax\<close>, and while the controller
  is in automatic mode \<open>outputSum\<close> lies within \<open>[outMin, outMax]\<close>. Immediately after
  every accepted \<open>PID_Compute\<close> whose operations give finite doubles, and immediately
  after every \<open>PID_SetOutputLimits\<close> with \<open>Min < Max\<close> made in automatic mode, both
  \<open>outputSum\<close> and the output cell lie within the limits then in force. In manual mode
  \<open>PID_SetOutputLimits\<close> with \<open>Min < Max\<close> stores the two bounds and does nothing else.
  Where an operation overflows the code goes on with an infinity or a NaN, which the
  saturation lets through; setpoint \<open>2 ^ 1023\<close> with input \<open>- 2 ^ 1023\<close> is such a case
  (\<open>compute_in_binary64_overflow\<close>), and nothing is said about it.
\<close>

theorem limits_kept_in_automatic:
  assumes "PID_constructor_in A now0 raw m0 Input Output Setpoint Kp Ki Kd POn Direction
             = Some (p0, m1)"
    and "run_in A (p0, m1) cs = Some (p, m)"
  shows "outMin p < outMax p \<and>
     (inAuto p \<longrightarrow> within_limits p (outputSum p)) \<and>
     (\<forall>p' m'. PID_Compute_in A now p m = Some (True, p', m') \<longrightarrow>
        within_limits p' (outputSum p') \<and> within_limits p' (m' (myOutput p'))) \<and>
     (\<forall>p' m'. inAuto p \<and> Min' < Max' \<and> PID_SetOutputLimits p m Min' Max' = (p', m') \<longrightarrow>
        outMin p' = Min' \<and> outMax p' = Max' \<and>
        within_limits p' (outputSum p') \<and> within_limits p' (m' (myOutput p'))) \<and>
     (\<not> inAuto p \<and> Min' < Max' \<longrightarrow>
        PID_SetOutputLimits p m Min' Max' = (p\<lparr>outMin := Min', outMax := Max'\<rparr>, m))"
proof -
  from PID_constructor_in_limits_inv [OF assms(1)] have "limits_inv p0"
    by simp
  from limits_inv_run_in [OF this assms(2)] have i: "limits_inv p" .
  have lim: "outMin p < outMax p"
    using i by (simp add: limits_inv_def)
  have sum: "inAuto p \<longrightarrow> within_limits p (outputSum p)"
    using i by (simp add: limits_inv_def)
  have comp: "\<forall>p' m'. PID_Compute_in A now p m = Some (True, p', m') \<longrightarrow>
           within_limits p' (outputSum p') \<and> within_limits p' (m' (myOutput p'))"
    using PID_Compute_in_within [OF lim] by blast
  have setl: "\<forall>p' m'. inAuto p \<and> Min' < Max' \<and> PID_SetOutputLimits p m Min' Max' = (p', m') \<longrightarrow>
           outMin p' = Min' \<and> outMax p' = Max' \<and>
           within_limits p' (outputSum p') \<and> within_limits p' (m' (myOutput p'))"
  proof (intro allI impI)
    fix p' m'
    assume e: "inAuto p \<and> Min' < Max' \<and> PID_SetOutputLimits p m Min' Max' = (p', m')"
    then have "inAuto p" and "Min' < Max'" by simp_all
    from PID_SetOutputLimits_within [OF this, of m] e
    show "outMin p' = Min' \<and> outMax p' = Max' \<and>
           within_limits p' (outputSum p') \<and> within_limits p' (m' (myOutput p'))"
      by simp
  qed
  have man: "\<not> inAuto p \<and> Min' < Max' \<longrightarrow>
           PID_SetOutputLimits p m Min' Max' = (p\<lparr>outMin := Min', outMax := Max'\<rparr>, m)"
    by (simp add: PID_SetOutputLimits_def Let_def)
  from lim sum comp setl man show ?thesis
    by blast
qed

text \<open>
  The third scenario of the spec, in binary64: automatic mode, output and accumulator at
  100, limits set to \<open>[0, 50]\<close>: both drop to 50.
\<close>

theorem limits_kept_in_automatic_witness:
  "PID_constructor_in binary64 100 pid_raw manual_mem 0 1 2 1 0 0 P_ON_E DIRECT
     = Some (pid_manual, manual_mem) \<and>
   run_in binary64 (pid_manual, manual_mem) [SetMode AUTOMATIC]
     = Some (pid_auto\<lparr>outputSum := 100\<rparr>, manual_mem) \<and>
   inAuto (pid_auto\<lparr>outputSum := 100\<rparr>) \<and>
   within_limits (pid_auto\<lparr>outputSum := 100\<rparr>) (outputSum (pid_auto\<lparr>outputSum := 100\<rparr>)) \<and>
   PID_Compute_in binary64 100 (pid_auto\<lparr>outputSum := 100\<rparr>) manual_mem
     = Some (True, pid_auto\<lparr>outputSum := 100, lastTime := 100\<rparr>, manual_mem(1 := 110)) \<and>
   within_limits (pid_auto\<lparr>outputSum := 100, lastTime := 100\<rparr>) 110 \<and>
   (0 :: real) < 50 \<and>
   PID_SetOutputLimits (pid_auto\<lparr>outputSum := 100\<rparr>) manual_mem 0 50
     = (pid_auto\<lparr>outputSum := 50, outMax := 50\<rparr>, manual_mem(1 := 50)) \<and>
   within_limits (pid_auto\<lparr>outputSum := 50, outMax := 50\<rparr>) 50"
proof -
  let ?p = "pid_auto\<lparr>outputSum := 100\<rparr>"
  from limits_kept_in_automatic [OF PID_constructor_in_binary64_manual_mem run_in_binary64_auto,
      of 100 0 50]
  have s: "inAuto ?p \<longrightarrow> within_limits ?p (outputSum ?p)"
    and k: "\<forall>p' m'. PID_Compute_in binary64 100 ?p manual_mem = Some (True, p', m') \<longrightarrow>
           within_limits p' (outputSum p') \<and> within_limits p' (m' (myOutput p'))"
    and l: "\<forall>p' m'. inAuto ?p \<and> (0::real) < 50 \<and>
             PID_SetOutputLimits ?p manual_mem 0 50 = (p', m') \<longrightarrow>
           outMin p' = 0 \<and> outMax p' = 50 \<and>
           within_limits p' (outputSum p') \<and> within_limits p' (m' (myOutput p'))"
    by blast+
  have a: "inAuto ?p"
    by (simp add: pid_auto_def)
  from s a have w1: "within_limits ?p (outputSum ?p)"
    by simp
  from k compute_in_binary64_after_auto
  have "within_limits (pid_auto\<lparr>outputSum := 100, lastTime := 100\<rparr>)
          ((manual_mem(1 := 110)) (myOutput (pid_auto\<lparr>outputSum := 100, lastTime := 100\<rparr>)))"
    by blast
  then have w2: "within_limits (pid_auto\<lparr>outputSum := 100, lastTime := 100\<rparr>) 110"
    by (simp add: pid_auto_def pid_manual_def)
  have lt: "(0::real) < 50"
    by simp
  from l a lt limits_after_auto
  have "within_limits (pid_auto\<lparr>outputSum := 50, outMax := 50\<rparr>)
          ((manual_mem(1 := 50)) (myOutput (pid_auto\<lparr>outputSum := 50, outMax := 50\<rparr>)))"
    by blast
  then have w3: "within_limits (pid_auto\<lparr>outputSum := 50, outMax := 50\<rparr>) 50"
    by (simp add: pid_auto_def pid_manual_def)
  show ?thesis
    using PID_constructor_in_binary64_manual_mem run_in_binary64_auto a w1
      compute_in_binary64_after_auto w2 lt limits_after_auto w3
    by (intro conjI)
qed

section \<open>Properties of the configuration calls\<close>

text \<open>
  C4. \<open>PID_SetTunings\<close> with a negative gain, \<open>PID_SetOutputLimits\<close> with \<open>Min \<ge> Max\<close>
  and \<open>PID_SetSampleTime\<close> with a period that is not positive each return the structure
  (and, for the limits, the store) exactly as received. The other two functions have no
  access to the store.
\<close>

theorem invalid_configuration_ignored:
  "(Kp < 0 \<or> Ki < 0 \<or> Kd < 0 \<longrightarrow> PID_SetTunings p Kp Ki Kd POn = Some p) \<and>
   (Min' \<ge> Max' \<longrightarrow> PID_SetOutputLimits p m Min' Max' = (p, m)) \<and>
   (sint N \<le> 0 \<longrightarrow> PID_SetSampleTime p N = Some p)"
  by (simp add: PID_SetTunings_def PID_SetOutputLimits_def PID_SetSampleTime_def)

theorem invalid_configuration_ignored_witness:
  "PID_SetTunings pid_auto 2 (- 1) 3 P_ON_M = Some pid_auto \<and>
   PID_SetOutputLimits pid_auto scenario_mem 5 5 = (pid_auto, scenario_mem) \<and>
   PID_SetOutputLimits pid_auto scenario_mem 50 0 = (pid_auto, scenario_mem) \<and>
   sint (0 :: c_int) \<le> 0 \<and> PID_SetSampleTime pid_auto 0 = Some pid_auto \<and>
   sint (- 5 :: c_int) \<le> 0 \<and> PID_SetSampleTime pid_auto (- 5) = Some pid_auto"
  using invalid_configuration_ignored [of 2 "- 1" 3 pid_auto P_ON_M 5 5 scenario_mem 0]
    invalid_configuration_ignored [of 2 "- 1" 3 pid_auto P_ON_M 0 50 scenario_mem "- 5"]
  by simp

text \<open>
  C6. For every controller with a sample period other than zero (the data model has
  \<open>sampleTimeMs > 0\<close>) and all gains \<open>Kp, Ki, Kd \<ge> 0\<close>, \<open>PID_SetTunings\<close> returns and
  the three status functions then give back exactly \<open>Kp\<close>, \<open>Ki\<close> and \<open>Kd\<close>: not scaled
  by the sample period, not negated, whatever \<open>controllerDirection\<close> holds.
\<close>

theorem PID_SetTunings_then_get:
  assumes "SampleTime p \<noteq> 0" and "0 \<le> Kp" and "0 \<le> Ki" and "0 \<le> Kd"
  shows "map_option (\<lambda>p'. (PID_GetKp p', PID_GetKi p', PID_GetKd p'))
           (PID_SetTunings p Kp Ki Kd POn) = Some (Kp, Ki, Kd)"
  using assms
  by (simp add: PID_SetTunings_def Let_def ddiv_def PID_GetKp_def PID_GetKi_def PID_GetKd_def
      unsigned_eq_0_iff)

theorem PID_SetTunings_then_get_witness:
  "SampleTime (pid_auto\<lparr>controllerDirection := REVERSE\<rparr>) \<noteq> 0 \<and>
   map_option (\<lambda>p'. (PID_GetKp p', PID_GetKi p', PID_GetKd p', kp p', ki p', kd p'))
     (PID_SetTunings (pid_auto\<lparr>controllerDirection := REVERSE\<rparr>) 2 3 4 P_ON_M)
     = Some (2, 3, 4, - 2, - 3 / 10, - 40)"
  using PID_SetTunings_then_get [of "pid_auto\<lparr>controllerDirection := REVERSE\<rparr>" 2 3 4 P_ON_M]
  by (simp add: PID_SetTunings_def Let_def ddiv_def PID_GetKp_def PID_GetKi_def PID_GetKd_def
      pid_auto_def pid_manual_def)




text \<open>
  C9. In automatic mode, \<open>PID_SetControllerDirection\<close> with a direction other than the
  current one negates \<open>kp\<close>, \<open>ki\<close> and \<open>kd\<close>, stores the direction and changes no
  other member. In manual mode it stores the direction and changes nothing else. The
  direction is stored and the display gains are kept in every case. The function has no
  access to the store.
\<close>

theorem PID_SetControllerDirection_flips:
  "(inAuto p \<and> Direction \<noteq> controllerDirection p \<longrightarrow>
      PID_SetControllerDirection p Direction =
        p\<lparr>kp := - kp p, ki := - ki p, kd := - kd p, controllerDirection := Direction\<rparr>) \<and>
   (\<not> inAuto p \<longrightarrow>
      PID_SetControllerDirection p Direction = p\<lparr>controllerDirection := Direction\<rparr>) \<and>
   controllerDirection (PID_SetControllerDirection p Direction) = Direction \<and>
   dispKp (PID_SetControllerDirection p Direction) = dispKp p \<and>
   dispKi (PID_SetControllerDirection p Direction) = dispKi p \<and>
   dispKd (PID_SetControllerDirection p Direction) = dispKd p"
  by (simp add: PID_SetControllerDirection_def Let_def)

theorem PID_SetControllerDirection_flips_witness:
  "inAuto (pid_auto\<lparr>ki := 2, kd := 3\<rparr>) \<and>
   REVERSE \<noteq> controllerDirection (pid_auto\<lparr>ki := 2, kd := 3\<rparr>) \<and>
   PID_SetControllerDirection (pid_auto\<lparr>ki := 2, kd := 3\<rparr>) REVERSE =
     pid_auto\<lparr>kp := - 1, ki := - 2, kd := - 3, controllerDirection := REVERSE\<rparr> \<and>
   \<not> inAuto pid_manual \<and>
   PID_SetControllerDirection pid_manual REVERSE = pid_manual\<lparr>controllerDirection := REVERSE\<rparr>"
  using PID_SetControllerDirection_flips [of "pid_auto\<lparr>ki := 2, kd := 3\<rparr>" REVERSE]
    PID_SetControllerDirection_flips [of pid_manual REVERSE]
  by (simp add: pid_auto_def pid_manual_def DIRECT_def REVERSE_def)

section \<open>Properties of the mode switch\<close>

text \<open>
  C5. For every controller in manual mode, with \<open>V\<close> in the output cell and \<open>I\<close> in the
  input cell, \<open>PID_SetMode\<close> with \<open>AUTOMATIC\<close> sets \<open>outputSum\<close> to \<open>V\<close> clamped into
  \<open>[outMin, outMax]\<close>, \<open>lastInput\<close> to \<open>I\<close> and \<open>inAuto\<close> to true, and changes no
  other member.
\<close>

theorem PID_SetMode_bumpless:
  assumes "\<not> inAuto p"
  shows "PID_SetMode p m AUTOMATIC =
     p\<lparr>outputSum := clamp (m (myOutput p)) (outMin p) (outMax p),
       lastInput := m (myInput p), inAuto := True\<rparr>"
  using assms by (simp add: PID_SetMode_def PID_Initialize_def Let_def clamp_def)

theorem PID_SetMode_bumpless_witness:
  "\<not> inAuto pid_manual \<and>
   PID_SetMode pid_manual (scenario_mem(0 := 7, 1 := 300)) AUTOMATIC =
     pid_manual\<lparr>outputSum := 255, lastInput := 7, inAuto := True\<rparr>"
  using PID_SetMode_bumpless [of pid_manual "scenario_mem(0 := 7, 1 := 300)"]
  by (simp add: pid_manual_def clamp_def)

text \<open>
  C8. For every controller and store, two calls of \<open>PID_SetMode\<close> with \<open>AUTOMATIC\<close> in
  a row leave the same structure as one call, whatever the cells hold at the second
  call. The first call leaves the controller in automatic mode, and on a controller in
  automatic mode the call assigns \<open>inAuto\<close> and nothing else: \<open>PID_Initialize\<close> does
  not run again.
\<close>

theorem PID_SetMode_automatic_twice:
  "PID_SetMode (PID_SetMode p m AUTOMATIC) m' AUTOMATIC = PID_SetMode p m AUTOMATIC \<and>
   inAuto (PID_SetMode p m AUTOMATIC) \<and>
   (inAuto q \<longrightarrow> PID_SetMode q m' AUTOMATIC = q\<lparr>inAuto := True\<rparr>)"
  by (simp add: PID_SetMode_def Let_def)

theorem PID_SetMode_automatic_twice_witness:
  "PID_SetMode pid_manual (scenario_mem(0 := 7, 1 := 300)) AUTOMATIC =
     pid_auto\<lparr>outputSum := 255, lastInput := 7\<rparr> \<and>
   PID_SetMode (pid_auto\<lparr>outputSum := 255, lastInput := 7\<rparr>) (scenario_mem(0 := 8, 1 := 20))
      AUTOMATIC = pid_auto\<lparr>outputSum := 255, lastInput := 7\<rparr>"
  using PID_SetMode_automatic_twice
    [of pid_manual "scenario_mem(0 := 7, 1 := 300)" "scenario_mem(0 := 8, 1 := 20)"
       "pid_auto\<lparr>outputSum := 255, lastInput := 7\<rparr>"]
  by (simp add: PID_SetMode_def PID_Initialize_def Let_def pid_auto_def pid_manual_def)

end
